theory Spec2Isabelle
  imports Main "HOL-Library.Word" "HOL-Library.Sublist"
begin

section \<open>Common data of the three worker programs\<close>

text \<open>
  The file \<open>cmd/sync/sync.go\<close> holds three programs, one after the other: the sync
  worker that copies from the archive to the backup storage (lines 1 to 304, here
  \<open>sync_main\<close>), the sync worker that copies from the inbox to the backup storage (lines 305
  to 538, here \<open>sync2_main\<close>), and the verify worker (lines 539 to 758, here
  \<open>verify_main\<close>). Each \<open>main\<close> runs one loop over the deliveries of a queue; the model
  of a program is the body of that loop, run on one delivery.

  A Go \<open>error\<close> is modelled by its message, a \<open>nil\<close> error by \<open>None\<close>, and a Go result
  pair \<open>(v, err)\<close> by a pair of options, so that a \<open>nil\<close> value next to a \<open>nil\<close> error can
  be written down.
\<close>

type_synonym byte = "8 word"
type_synonym error = string

record checksums =
  Type :: string
  Value :: string

record sync =
  Type :: string
  User :: string
  Filepath :: string
  AccessionID :: string
  DecryptedChecksums :: "checksums list"

record completed =
  User :: string
  Filepath :: string
  AccessionID :: string
  DecryptedChecksums :: "checksums list"

record message =
  FilePath :: string
  User :: string
  FileID :: int
  ArchivePath :: string
  EncryptedChecksums :: "checksums list"
  ReVerify :: bool

record verified =
  User :: string
  FilePath :: string
  DecryptedChecksums :: "checksums list"

text \<open>\<open>broker.FileError\<close>, as the verify worker fills it (lines 671 to 675).\<close>

record FileError =
  User :: string
  FilePath :: string
  Reason :: string

text \<open>
  A hash object (\<open>hash.Hash\<close>) is the bytes written to it so far; its digest is the
  digest function applied to them. \<open>database.FileInfo\<close> holds the two hash objects and
  the two sizes the verify worker sets.
\<close>

type_synonym hash = "byte list"

record FileInfo =
  Checksum :: hash
  Size :: int
  DecryptedChecksum :: hash
  DecryptedSize :: int

text \<open>
  The body of a published message: the bytes of the delivery passed on as they are, or the
  JSON document \<open>json.Marshal\<close> makes of a struct.
\<close>

datatype body =
    Raw string
  | JSON_completed completed
  | JSON_verified verified
  | JSON_FileError FileError

datatype routing = RoutingKey | RoutingError

text \<open>
  The calls a loop body makes on the broker, the database and the destination storage, in
  the order it makes them. \<open>Nack requeue\<close> is \<open>delivered.Nack(false, requeue)\<close>;
  \<open>SendMessage\<close> is recorded when it is called, whether or not it then fails;
  \<open>Written path bs\<close> says that \<open>io.Copy\<close> wrote the bytes \<open>bs\<close> to the destination
  object \<open>path\<close>.
\<close>

datatype event =
    Ack
  | Nack bool
  | SendMessage routing body
  | SendJSONError string
  | MarkReady string string string string
  | MarkCompleted FileInfo int
  | Written string "byte list"

text \<open>
  How a loop body ends: it goes on to the next delivery (\<open>continue\<close>, or the end of the
  body), \<open>log.Fatal\<close> ends the process, or a nil dereference panics.
\<close>

datatype outcome = NextDelivery | Fatal | Panic

type_synonym iteration = "event list \<times> outcome"

record delivery =
  CorrelationId :: string
  Body :: string

definition acks :: "event list \<Rightarrow> nat" where
  "acks tr = length (filter (\<lambda>ev. ev = Ack) tr)"

definition nacks :: "event list \<Rightarrow> nat" where
  "nacks tr = length (filter (\<lambda>ev. ev = Nack True \<or> ev = Nack False) tr)"

definition resolutions :: "event list \<Rightarrow> nat" where
  "resolutions tr = acks tr + nacks tr"

fun is_publish :: "event \<Rightarrow> bool" where
  "is_publish (SendMessage r b) = True"
| "is_publish (SendJSONError s) = True"
| "is_publish ev = False"

definition publishes :: "event list \<Rightarrow> nat" where
  "publishes tr = length (filter is_publish tr)"

fun is_error_publish :: "event \<Rightarrow> bool" where
  "is_error_publish (SendMessage r b) = (r = RoutingError)"
| "is_error_publish (SendJSONError s) = True"
| "is_error_publish ev = False"

definition error_publishes :: "event list \<Rightarrow> nat" where
  "error_publishes tr = length (filter is_error_publish tr)"

subsection \<open>Streams and \<open>io.Copy\<close>\<close>

text \<open>
  A reader is the chunks its successive \<open>Read\<close> calls return, and what ends them:
  \<open>None\<close> for \<open>io.EOF\<close>, or an error. A writer is the
  room left before \<open>Write\<close> fails and the error it then returns (\<open>None\<close>: it
  never fails); a failing \<open>Write\<close> has written the bytes there was room for. A writer that \<open>NewFileWriter\<close> returns is new:
  nothing has been written to it.
\<close>

datatype reader = Reader "byte list list" "error option"

datatype writer = Writer "(nat \<times> error) option"

fun Write :: "byte list \<Rightarrow> writer \<Rightarrow> nat \<times> error option \<times> writer" where
  "Write p (Writer None) = (length p, None, Writer None)"
| "Write p (Writer (Some (k, err))) =
     (if length p \<le> k then (length p, None, Writer (Some (k - length p, err)))
      else (k, Some err, Writer (Some (0, err))))"

text \<open>
  The loop of \<open>io.Copy\<close>: read a chunk, write it, add the number of bytes written to the
  count; a write error ends the loop with that error, and the end of the reader ends it
  with the reader's error (\<open>io.EOF\<close> is not an error of the copy). The last component is
  the bytes that reached the destination.
\<close>

fun copy_loop :: "writer \<Rightarrow> byte list list \<Rightarrow> error option \<Rightarrow> nat \<Rightarrow> byte list \<Rightarrow> nat \<times> error option \<times> byte list" where
  "copy_loop w [] er n out = (n, er, out)"
| "copy_loop w (p # ps) er n out =
     (case Write p w of
        (nw, Some ew, w') \<Rightarrow> (n + nw, Some ew, out @ take nw p)
      | (nw, None, w') \<Rightarrow> copy_loop w' ps er (n + nw) (out @ take nw p))"

text \<open>\<open>io.Copy(dest, file)\<close>; a nil reader or writer panics at the first call on it.\<close>

fun io_Copy :: "writer option \<Rightarrow> reader option \<Rightarrow> (nat \<times> error option \<times> byte list) option" where
  "io_Copy (Some w) (Some (Reader ps er)) = Some (copy_loop w ps er 0 [])"
| "io_Copy dst src = None"

subsection \<open>The broker's validation helper\<close>

text \<open>
  Modelled from the spec: \<open>mq.ValidateJSON\<close> of \<open>internal/broker\<close>, which the first
  sync worker and the verify worker call and whose code is not among the sources. The
  spec's transition 1 of the worker loop says that on a validation failure the delivery is
  negative-acknowledged without requeue and a diagnostic event is published to an error
  channel; the helper returns the error to its caller. On success it does nothing.
\<close>

definition mq_ValidateJSON :: "error option \<Rightarrow> event list \<times> error option" where
  "mq_ValidateJSON verdict =
     (case verdict of
        None \<Rightarrow> ([], None)
      | Some err \<Rightarrow> ([Nack False, SendJSONError err], Some err))"

text \<open>
  The loop over \<open>message.DecryptedChecksums\<close> that keeps the value of the last entry of
  type \<open>sha256\<close> (lines 108 to 113 and 427 to 432); \<open>checksumSha256\<close> starts empty.
\<close>

definition checksumSha256 :: "checksums list \<Rightarrow> string" where
  "checksumSha256 cs =
     foldl (\<lambda>acc c. if checksums.Type c = ''sha256'' then checksums.Value c else acc) [] cs"

section \<open>The sync worker from the archive (lines 1 to 304)\<close>

text \<open>
  What the collaborators answer during one iteration: the verdict of the schema validation,
  the message as decoded, the database's \<open>GetArchived\<close>, the two storage backends and
  the broker's \<open>SendMessage\<close>. The errors of \<open>Ack\<close> and \<open>Nack\<close> are only logged, so they
  are not inputs.
\<close>

record sync_env =
  delivered :: delivery
  validation :: "error option"
  decoded :: sync
  GetArchived :: "string \<Rightarrow> string \<Rightarrow> string \<Rightarrow> (string \<times> int) \<times> error option"
  archive_NewFileReader :: "string \<Rightarrow> reader option \<times> error option"
  backup_NewFileWriter :: "string \<Rightarrow> writer option \<times> error option"
  SendMessage_err :: "error option"

definition sync_main :: "sync_env \<Rightarrow> iteration" where
  "sync_main e =
     (case mq_ValidateJSON (validation e) of
        (ev, Some err) \<Rightarrow> (ev, NextDelivery)
      | (ev, None) \<Rightarrow>
     (let m = decoded e in
      case GetArchived e (sync.User m) (sync.Filepath m) (checksumSha256 (sync.DecryptedChecksums m)) of
        (_, Some err) \<Rightarrow> (ev @ [Nack True], NextDelivery)
      | ((filePath, fileSize), None) \<Rightarrow>
     (case archive_NewFileReader e filePath of
        (_, Some err) \<Rightarrow> (ev @ [Nack True], NextDelivery)
      | (file, None) \<Rightarrow>
     (case backup_NewFileWriter e filePath of
        (_, Some err) \<Rightarrow> (ev @ [Nack True], NextDelivery)
      | (dest, None) \<Rightarrow>
     (case io_Copy dest file of
        None \<Rightarrow> (ev, Panic)
      | Some (copiedSize, err, out) \<Rightarrow>
          if err \<noteq> None \<or> int copiedSize \<noteq> fileSize
          then (ev @ [Written filePath out, Nack True], NextDelivery)
          else
            (case SendMessage_err e of
               Some err \<Rightarrow>
                 (ev @ [Written filePath out,
                        SendMessage RoutingKey (Raw (Body (delivered e)))], NextDelivery)
             | None \<Rightarrow>
                 (ev @ [Written filePath out,
                        SendMessage RoutingKey (Raw (Body (delivered e))), Ack],
                  NextDelivery)))))))"

section \<open>The sync worker from the inbox (lines 305 to 538)\<close>

text \<open>
  The libraries \<open>encoding/json\<close> and \<open>gojsonschema\<close> are outside the repository, so
  their answers are inputs: \<open>json.Unmarshal\<close> of a body into a map gives the keys of the
  document or an error; \<open>gojsonschema.Validate\<close> gives a result, of which the worker
  reads \<open>Valid()\<close>, and an error (a nil result is \<open>None\<close>). The variable
  \<open>message\<close> of the two sync workers is declared outside the loop; \<open>decoded\<close> is what
  it holds after \<open>json.Unmarshal\<close> of the delivery's body. The error of
  \<open>SendMessage\<close> is an input that this worker only logs.
\<close>

datatype schema = ingestion_accession | ingestion_completion

record sync2_env =
  delivered :: delivery
  decoded :: sync
  json_Unmarshal :: "body \<Rightarrow> string list \<times> error option"
  gojsonschema_Validate :: "schema \<Rightarrow> body \<Rightarrow> bool option \<times> error option"
  inbox_NewFileReader :: "string \<Rightarrow> reader option \<times> error option"
  backup_NewFileWriter :: "string \<Rightarrow> writer option \<times> error option"
  MarkReady_err :: "error option"
  SendMessage_err :: "error option"

text \<open>
  \<open>validateJSON\<close> (lines 521 to 538): an error of \<open>json.Unmarshal\<close> is returned with a
  nil result; otherwise the body is validated against \<open>ingestion-accession.json\<close> when
  the document has the key \<open>type\<close>, and against \<open>ingestion-completion.json\<close> when not.
\<close>

definition validateJSON :: "sync2_env \<Rightarrow> body \<Rightarrow> bool option \<times> error option" where
  "validateJSON e b =
     (case json_Unmarshal e b of
        (ks, Some err) \<Rightarrow> (None, Some err)
      | (ks, None) \<Rightarrow>
          gojsonschema_Validate e
            (if ''type'' \<in> set ks then ingestion_accession else ingestion_completion) b)"

text \<open>\<open>err.Error()\<close>: a method call on a nil interface value panics (\<open>None\<close>).\<close>

definition error_Error :: "error option \<Rightarrow> string option" where
  "error_Error err = err"

text \<open>
  The two validation blocks of the worker (lines 392 to 421 for the delivery's body, lines
  443 to 470 for the completion message) are the same code: a first branch for
  \<open>err != nil\<close>, and a second for \<open>!res.Valid()\<close> that is reached with \<open>err\<close> nil and
  evaluates \<open>err.Error()\<close> as the argument of \<open>SendJSONError\<close> after the \<open>Nack\<close>.
  The result is the events and \<open>None\<close> when the body is valid, or how the iteration ends.
\<close>

definition validation_block :: "bool option \<times> error option \<Rightarrow> event list \<times> outcome option" where
  "validation_block r =
     (case r of (res, err) \<Rightarrow>
        (case err of
           Some msg \<Rightarrow> ([Nack False, SendJSONError msg], Some NextDelivery)
         | None \<Rightarrow>
             (case res of
                None \<Rightarrow> ([], Some Panic)
              | Some valid \<Rightarrow>
                  if \<not> valid then
                    (case error_Error err of
                       None \<Rightarrow> ([Nack False], Some Panic)
                     | Some msg \<Rightarrow> ([Nack False, SendJSONError msg], Some NextDelivery))
                  else ([], None))))"

definition sync2_main :: "sync2_env \<Rightarrow> iteration" where
  "sync2_main e =
     (case validation_block (validateJSON e (Raw (Body (delivered e)))) of
        (ev, Some out) \<Rightarrow> (ev, out)
      | (ev, None) \<Rightarrow>
     (let m = decoded e;
          sha = checksumSha256 (sync.DecryptedChecksums m);
          c = \<lparr> completed.User = sync.User m, Filepath = sync.Filepath m,
                AccessionID = sync.AccessionID m,
                DecryptedChecksums = sync.DecryptedChecksums m \<rparr>;
          completeMsg = JSON_completed c
      in
      case validation_block (validateJSON e completeMsg) of
        (ev2, Some out) \<Rightarrow> (ev @ ev2, out)
      | (ev2, None) \<Rightarrow>
     (case inbox_NewFileReader e (sync.Filepath m) of
        (_, Some err) \<Rightarrow> (ev @ ev2, NextDelivery)
      | (file, None) \<Rightarrow>
     (case backup_NewFileWriter e (sync.Filepath m) of
        (_, Some err) \<Rightarrow> (ev @ ev2, NextDelivery)
      | (dest, None) \<Rightarrow>
     (case io_Copy dest file of
        None \<Rightarrow> (ev @ ev2, Panic)
      | Some (n, Some err, out) \<Rightarrow> (ev @ ev2 @ [Written (sync.Filepath m) out], Fatal)
      | Some (n, None, out) \<Rightarrow>
          (case MarkReady_err e of
             Some err \<Rightarrow>
               (ev @ ev2 @
                [Written (sync.Filepath m) out,
                 MarkReady (sync.AccessionID m) (sync.User m) (sync.Filepath m) sha,
                 Nack True], NextDelivery)
           | None \<Rightarrow>
               (ev @ ev2 @
                [Written (sync.Filepath m) out,
                 MarkReady (sync.AccessionID m) (sync.User m) (sync.Filepath m) sha,
                 SendMessage RoutingKey completeMsg,
                 Ack], NextDelivery)))))))"

section \<open>The verify worker (lines 539 to 758)\<close>

subsection \<open>The streams of the verification\<close>

text \<open>
  \<open>mr := io.MultiReader(hr, io.TeeReader(f, archiveFileHash))\<close> (lines 684 to 686) is the
  bytes left in the header reader \<open>hr\<close>, the bytes left in the archive file \<open>f\<close>
  (\<open>None\<close>: a nil reader) and the bytes written to \<open>archiveFileHash\<close> so far. A
  \<open>Read\<close> of at most \<open>n\<close> bytes is served by \<open>hr\<close> while it has bytes left and never
  spans the two readers; once \<open>hr\<close> is empty it is served by the tee reader, which writes
  what it read from \<open>f\<close> to the hash. The result also gives the bytes read from \<open>f\<close>.
  A read from a nil \<open>f\<close> panics (\<open>None\<close>).
\<close>

type_synonym multi = "byte list \<times> byte list option \<times> hash"

fun mr_Read :: "nat \<Rightarrow> multi \<Rightarrow> (byte list \<times> multi) option" where
  "mr_Read n (hr, f, archiveFileHash) =
     (if hr \<noteq> [] then Some (take n hr, (drop n hr, f, archiveFileHash))
      else (case f of
              None \<Rightarrow> None
            | Some bs \<Rightarrow> Some (take n bs, (hr, Some (drop n bs), archiveFileHash @ take n bs))))"

fun mr_Reads :: "nat list \<Rightarrow> multi \<Rightarrow> (byte list \<times> multi) option" where
  "mr_Reads [] mr = Some ([], mr)"
| "mr_Reads (n # ns) mr =
     (case mr_Read n mr of
        None \<Rightarrow> None
      | Some (p, mr') \<Rightarrow>
          (case mr_Reads ns mr' of
             None \<Rightarrow> None
           | Some (ps, mr'') \<Rightarrow> Some (p @ ps, mr'')))"

text \<open>
  The Crypt4GH reader (\<open>streaming.NewCrypt4GHReader\<close>, a library outside the repository)
  is what it does during one verification: the sizes of the reads \<open>NewCrypt4GHReader\<close>
  makes on \<open>mr\<close> and the error it returns; then, for each \<open>Read\<close> that returns plaintext,
  the sizes of the reads it makes on \<open>mr\<close> and the plaintext; then the reads of its last
  \<open>Read\<close> and what that returns (\<open>None\<close>: \<open>io.EOF\<close>).
\<close>

record c4gh =
  open_reads :: "nat list"
  open_err :: "error option"
  plain_reads :: "(nat list \<times> byte list) list"
  last_reads :: "nat list"
  last_err :: "error option"

text \<open>
  \<open>io.Copy(sha256hash, stream)\<close> with \<open>stream := io.TeeReader(c4ghr, md5hash)\<close> (lines 697
  to 699): each plaintext chunk read from the Crypt4GH reader is written to \<open>md5hash\<close> by
  the tee reader and to \<open>sha256hash\<close> by the copy, and counted; a hash never fails to
  write. The result is the count, the error of the copy, the state of \<open>mr\<close> and the two
  hashes; \<open>None\<close> is a panic.
\<close>

fun copy_stream ::
  "(nat list \<times> byte list) list \<Rightarrow> nat list \<Rightarrow> error option \<Rightarrow> multi \<Rightarrow> hash \<Rightarrow> hash \<Rightarrow> nat
     \<Rightarrow> (nat \<times> error option \<times> multi \<times> hash \<times> hash) option" where
  "copy_stream [] lreads lerr mr md5hash sha256hash n =
     (case mr_Reads lreads mr of
        None \<Rightarrow> None
      | Some (_, mr') \<Rightarrow> Some (n, lerr, mr', md5hash, sha256hash))"
| "copy_stream ((rs, p) # rest) lreads lerr mr md5hash sha256hash n =
     (case mr_Reads rs mr of
        None \<Rightarrow> None
      | Some (_, mr') \<Rightarrow>
          copy_stream rest lreads lerr mr' (md5hash @ p) (sha256hash @ p) (n + length p))"

datatype verification = Panicked | Failed error | Verified nat hash hash hash

text \<open>
  Lines 665 to 702 once the archive file is open: the result is the decrypted size and
  the hashes \<open>archiveFileHash\<close>, \<open>sha256hash\<close> and \<open>md5hash\<close>.
\<close>

definition verification :: "c4gh \<Rightarrow> byte list \<Rightarrow> byte list option \<Rightarrow> verification" where
  "verification d header f =
     (case mr_Reads (open_reads d) (header, f, []) of
        None \<Rightarrow> Panicked
      | Some (_, mr) \<Rightarrow>
          (case open_err d of
             Some err \<Rightarrow> Failed err
           | None \<Rightarrow>
               (case copy_stream (plain_reads d) (last_reads d) (last_err d) mr [] [] 0 of
                  None \<Rightarrow> Panicked
                | Some (n, Some err, mr', md5hash, sha256hash) \<Rightarrow> Failed err
                | Some (n, None, (hr, f', archiveFileHash), md5hash, sha256hash) \<Rightarrow>
                    Verified n archiveFileHash sha256hash md5hash)))"

text \<open>\<open>fmt.Sprintf("%x", digest)\<close>: two lowercase hexadecimal digits for each byte.\<close>

definition hexdigit :: "nat \<Rightarrow> char" where
  "hexdigit n = ''0123456789abcdef'' ! (n mod 16)"

fun hex :: "byte list \<Rightarrow> string" where
  "hex [] = []"
| "hex (b # bs) = hexdigit (unat b div 16) # hexdigit (unat b mod 16) # hex bs"

subsection \<open>The loop body\<close>

record verify_env =
  delivered :: delivery
  validation :: "error option"
  decoded :: message
  GetHeader :: "int \<Rightarrow> byte list \<times> error option"
  GetFileSize :: "string \<Rightarrow> int \<times> error option"
  NewFileReader :: "string \<Rightarrow> byte list option \<times> error option"
  decryptor :: c4gh
  validation_out :: "body \<Rightarrow> error option"
  MarkCompleted_err :: "error option"
  SendMessage_err :: "error option"

text \<open>
  Lines 628 to 705: up to the point where \<open>file\<close> holds the sizes and the hashes. The
  result is how the iteration ended before that point, or \<open>file\<close> and \<open>md5hash\<close>.
\<close>

definition verify_compute :: "verify_env \<Rightarrow> iteration + FileInfo \<times> hash" where
  "verify_compute e =
     (case mq_ValidateJSON (verify_env.validation e) of
        (ev, Some err) \<Rightarrow> Inl (ev, NextDelivery)
      | (ev, None) \<Rightarrow>
     (let m = verify_env.decoded e in
      case GetHeader e (FileID m) of
        (_, Some err) \<Rightarrow>
          Inl (ev @ [Nack False,
                     SendMessage RoutingError (Raw (Body (verify_env.delivered e)))],
               NextDelivery)
      | (header, None) \<Rightarrow>
     (case GetFileSize e (ArchivePath m) of
        (_, Some err) \<Rightarrow> Inl (ev, NextDelivery)
      | (fileSize, None) \<Rightarrow>
     (case NewFileReader e (ArchivePath m) of
        (_, Some err) \<Rightarrow>
          Inl (ev @ [SendMessage RoutingError
                       (JSON_FileError \<lparr> FileError.User = message.User m,
                          FilePath = message.FilePath m, Reason = err \<rparr>)],
               NextDelivery)
      | (f, None) \<Rightarrow>
     (case verification (decryptor e) header f of
        Panicked \<Rightarrow> Inl (ev, Panic)
      | Failed err \<Rightarrow> Inl (ev, NextDelivery)
      | Verified n archiveFileHash sha256hash md5hash \<Rightarrow>
          Inr (\<lparr> Checksum = archiveFileHash, Size = fileSize,
                 DecryptedChecksum = sha256hash, DecryptedSize = int n \<rparr>, md5hash))))))"

text \<open>
  Lines 707 to 753, with the digest functions of \<open>crypto/sha256\<close> and \<open>crypto/md5\<close> as
  parameters. \<open>sha256hash\<close> is the hash stored in \<open>file.DecryptedChecksum\<close>.
\<close>

definition verify_report ::
  "(byte list \<Rightarrow> byte list) \<Rightarrow> (byte list \<Rightarrow> byte list) \<Rightarrow> verify_env \<Rightarrow> FileInfo \<Rightarrow> hash \<Rightarrow> iteration" where
  "verify_report sha256_Sum md5_Sum e file md5hash =
     (let m = verify_env.decoded e in
      if \<not> ReVerify m then
        (let c = \<lparr> verified.User = message.User m, FilePath = message.FilePath m,
                   DecryptedChecksums =
                     [\<lparr> checksums.Type = ''sha256'',
                        Value = hex (sha256_Sum (DecryptedChecksum file)) \<rparr>,
                      \<lparr> checksums.Type = ''md5'', Value = hex (md5_Sum md5hash) \<rparr>] \<rparr>;
             verifiedMessage = JSON_verified c
         in
         case mq_ValidateJSON (validation_out e verifiedMessage) of
           (ev, Some err) \<Rightarrow> (ev, NextDelivery)
         | (ev, None) \<Rightarrow>
             (case MarkCompleted_err e of
                Some err \<Rightarrow> (ev @ [MarkCompleted file (FileID m)], NextDelivery)
              | None \<Rightarrow>
                  (ev @ [MarkCompleted file (FileID m),
                         SendMessage RoutingKey verifiedMessage,
                         Ack], NextDelivery)))
      else ([], NextDelivery))"

definition verify_main ::
  "(byte list \<Rightarrow> byte list) \<Rightarrow> (byte list \<Rightarrow> byte list) \<Rightarrow> verify_env \<Rightarrow> iteration" where
  "verify_main sha256_Sum md5_Sum e =
     (case verify_compute e of
        Inl it \<Rightarrow> it
      | Inr (file, md5hash) \<Rightarrow> verify_report sha256_Sum md5_Sum e file md5hash)"

subsection \<open>What the verification reads and decrypts\<close>

text \<open>
  The plaintext the decrypt stage produces is the chunks its \<open>Read\<close> calls return, one
  after the other; the reads it makes on \<open>mr\<close> during the whole verification are those
  of \<open>NewCrypt4GHReader\<close>, of each \<open>Read\<close> and of the last \<open>Read\<close>.
\<close>

definition plaintext :: "c4gh \<Rightarrow> byte list" where
  "plaintext d = concat (map snd (plain_reads d))"

definition all_reads :: "c4gh \<Rightarrow> nat list" where
  "all_reads d = open_reads d @ concat (map fst (plain_reads d)) @ last_reads d"

text \<open>
  The bytes a sequence of reads on \<open>mr\<close> takes from the archive file \<open>f\<close>, written
  without the hash: a read is served by the header reader while the header has bytes
  left, and by the file after that.
\<close>

fun read_from_archive :: "nat list \<Rightarrow> byte list \<Rightarrow> byte list \<Rightarrow> byte list" where
  "read_from_archive [] hr f = []"
| "read_from_archive (n # ns) hr f =
     (if hr \<noteq> [] then read_from_archive ns (drop n hr) f
      else take n f @ read_from_archive ns hr (drop n f))"

section \<open>The storage backends (\<open>internal/storage/storage.go\<close>)\<close>

subsection \<open>\<open>filepath.Clean\<close> and \<open>filepath.Join\<close>\<close>

text \<open>
  The POSIX backend builds every path with \<open>filepath.Join(filepath.Clean(pb.Location),
  filePath)\<close>. Both functions are Go's standard library (\<open>path/filepath\<close>, Unix); they
  work on the text of the path only. \<open>Clean\<close> reads the elements between the
  separators from left to right: an empty element and \<open>.\<close> are dropped; \<open>..\<close> removes
  the element before it when that is a name, is dropped at the root of a rooted path, and
  is kept otherwise; a name is kept. The result is the kept elements joined by single
  separators, after the leading separator of a rooted path, and \<open>.\<close> when nothing is
  left of a path that is not rooted.
\<close>

fun elements :: "string \<Rightarrow> string list" where
  "elements [] = [[]]"
| "elements (c # cs) =
     (if c = CHR ''/'' then [] # elements cs
      else (case elements cs of
              [] \<Rightarrow> [[c]]
            | x # xs \<Rightarrow> (c # x) # xs))"

definition clean_elem :: "bool \<Rightarrow> string list \<Rightarrow> string \<Rightarrow> string list" where
  "clean_elem rooted out e =
     (if e = [] \<or> e = ''.'' then out
      else if e = ''..'' then
        (if out \<noteq> [] \<and> last out \<noteq> ''..'' then butlast out
         else if \<not> rooted then out @ [''..'']
         else out)
      else out @ [e])"

fun strings_Join :: "string list \<Rightarrow> string \<Rightarrow> string" where
  "strings_Join [] sep = []"
| "strings_Join [e] sep = e"
| "strings_Join (e # es) sep = e @ sep @ strings_Join es sep"

definition Clean :: "string \<Rightarrow> string" where
  "Clean path =
     (if path = [] then ''.''
      else
        (let rooted = (hd path = CHR ''/'');
             out = foldl (clean_elem rooted) [] (elements path)
         in if rooted then CHR ''/'' # strings_Join out ''/''
            else if out = [] then ''.''
            else strings_Join out ''/''))"

text \<open>\<open>Join\<close> skips leading empty elements, joins the rest with separators and cleans.\<close>

fun Join :: "string list \<Rightarrow> string" where
  "Join [] = []"
| "Join (e # es) = (if e \<noteq> [] then Clean (strings_Join (e # es) ''/'') else Join es)"

text \<open>
  A path \<open>p\<close> is confined under the directory \<open>root\<close> when both are rooted or both are
  not, the names of \<open>root\<close> are the first names of \<open>p\<close>, and no \<open>..\<close> follows them.
\<close>

definition rooted :: "string \<Rightarrow> bool" where
  "rooted p = (p \<noteq> [] \<and> hd p = CHR ''/'')"

definition path_elems :: "string \<Rightarrow> string list" where
  "path_elems p = filter (\<lambda>e. e \<noteq> [] \<and> e \<noteq> ''.'') (elements p)"

definition confined :: "string \<Rightarrow> string \<Rightarrow> bool" where
  "confined root p =
     (rooted p = rooted root \<and> prefix (path_elems root) (path_elems p) \<and>
      ''..'' \<notin> set (drop (length (path_elems root)) (path_elems p)))"

text \<open>Helpers of the proofs: a name, the shape of a cleaned element list, its text.\<close>

definition real_elem :: "string \<Rightarrow> bool" where
  "real_elem e = (e \<noteq> [] \<and> e \<noteq> ''.'' \<and> e \<noteq> ''..'' \<and> CHR ''/'' \<notin> set e)"

definition good :: "bool \<Rightarrow> string list \<Rightarrow> bool" where
  "good rt out =
     (\<exists>k ys. out = replicate k ''..'' @ ys \<and> (rt \<longrightarrow> k = 0) \<and> list_all real_elem ys)"

definition render :: "bool \<Rightarrow> string list \<Rightarrow> string" where
  "render rt out =
     (if rt then CHR ''/'' # strings_Join out ''/''
      else if out = [] then ''.''
      else strings_Join out ''/'')"

subsection \<open>The POSIX backend\<close>

text \<open>
  Of \<open>PosixBackend\<close> the three methods read \<open>Location\<close> only. A method makes one call on
  the operating system, whose answer is a parameter; the model returns the call next to
  the method's result, so that the path it resolved can be read off.
\<close>

record PosixBackend =
  Location :: string

datatype flag = O_CREATE | O_TRUNC | O_RDWR

datatype syscall =
    os_Open string
  | os_OpenFile string "flag list" nat
  | os_Stat string

fun syscall_path :: "syscall \<Rightarrow> string" where
  "syscall_path (os_Open name) = name"
| "syscall_path (os_OpenFile name flags perm) = name"
| "syscall_path (os_Stat name) = name"

definition PosixBackend_NewFileReader ::
  "PosixBackend \<Rightarrow> (string \<Rightarrow> 'f option \<times> error option) \<Rightarrow> string
     \<Rightarrow> syscall \<times> 'f option \<times> error option" where
  "PosixBackend_NewFileReader pb os filePath =
     (let name = Join [Clean (Location pb), filePath] in
      case os name of
        (file, Some err) \<Rightarrow> (os_Open name, None, Some err)
      | (file, None) \<Rightarrow> (os_Open name, file, None))"

definition PosixBackend_NewFileWriter ::
  "PosixBackend \<Rightarrow> (string \<Rightarrow> 'f option \<times> error option) \<Rightarrow> string
     \<Rightarrow> syscall \<times> 'f option \<times> error option" where
  "PosixBackend_NewFileWriter pb os filePath =
     (let name = Join [Clean (Location pb), filePath] in
      case os name of
        (file, Some err) \<Rightarrow> (os_OpenFile name [O_CREATE, O_TRUNC, O_RDWR] 416, None, Some err)
      | (file, None) \<Rightarrow> (os_OpenFile name [O_CREATE, O_TRUNC, O_RDWR] 416, file, None))"

definition PosixBackend_GetFileSize ::
  "PosixBackend \<Rightarrow> (string \<Rightarrow> int \<times> error option) \<Rightarrow> string \<Rightarrow> syscall \<times> int \<times> error option" where
  "PosixBackend_GetFileSize pb os filePath =
     (let name = Join [Clean (Location pb), filePath] in
      case os name of
        (stat, Some err) \<Rightarrow> (os_Stat name, 0, Some err)
      | (stat, None) \<Rightarrow> (os_Stat name, stat, None))"

subsection \<open>The S3 backend\<close>

text \<open>
  Of \<open>S3Backend\<close> the methods modelled here read \<open>Bucket\<close> and call the client, whose
  answers are parameters: \<open>GetObject\<close> and \<open>HeadObject\<close> return a pointer to their
  output (\<open>None\<close>: nil) and an error. \<open>None\<close> as the result of a method is a panic on a
  nil pointer.
\<close>

record S3Backend =
  Bucket :: string

record GetObjectOutput =
  Body :: "reader option"

record HeadObjectOutput =
  ContentLength :: "int option"

definition S3Backend_NewFileReader ::
  "S3Backend \<Rightarrow> (string \<Rightarrow> string \<Rightarrow> GetObjectOutput option \<times> error option) \<Rightarrow> string
     \<Rightarrow> (reader option \<times> error option) option" where
  "S3Backend_NewFileReader sb GetObject filePath =
     (case GetObject (S3Backend.Bucket sb) filePath of
        (r, err) \<Rightarrow>
          (case r of
             None \<Rightarrow> None
           | Some out \<Rightarrow> Some (GetObjectOutput.Body out, None)))"

definition S3Backend_GetFileSize ::
  "S3Backend \<Rightarrow> (string \<Rightarrow> string \<Rightarrow> HeadObjectOutput option \<times> error option) \<Rightarrow> string
     \<Rightarrow> (int \<times> error option) option" where
  "S3Backend_GetFileSize sb HeadObject filePath =
     (case HeadObject (S3Backend.Bucket sb) filePath of
        (r, Some err) \<Rightarrow> Some (0, Some err)
      | (r, None) \<Rightarrow>
          (case r of
             None \<Rightarrow> None
           | Some out \<Rightarrow>
               (case ContentLength out of
                  None \<Rightarrow> None
                | Some n \<Rightarrow> Some (n, None))))"

subsection \<open>\<open>transportConfigS3\<close>\<close>

record S3Conf =
  URL :: string
  Port :: int
  AccessKey :: string
  SecretKey :: string
  Bucket :: string
  Region :: string
  UploadConcurrency :: int
  Chunksize :: int
  Cacert :: string

text \<open>
  \<open>tls.Config\<close> with the two fields the function sets (\<open>MinVersion\<close> is a \<open>uint16\<close>;
  a nil certificate pool is \<open>None\<close>), and \<open>http.Transport\<close> with the two it sets.
\<close>

record tls_Config =
  MinVersion :: "16 word"
  RootCAs :: "string list option"

record http_Transport =
  TLSClientConfig :: tls_Config
  ForceAttemptHTTP2 :: bool

text \<open>The protocol versions of Go's \<open>crypto/tls\<close>.\<close>

definition VersionTLS10 :: "16 word" where "VersionTLS10 = 0x0301"
definition VersionTLS11 :: "16 word" where "VersionTLS11 = 0x0302"
definition VersionTLS12 :: "16 word" where "VersionTLS12 = 0x0303"
definition VersionTLS13 :: "16 word" where "VersionTLS13 = 0x0304"

text \<open>
  \<open>crypto/tls\<close> leaves a protocol version out of a handshake on account of the
  configured minimum when \<open>MinVersion\<close> is set (not \<open>0\<close>) and the version is smaller.
\<close>

definition below_minimum :: "tls_Config \<Rightarrow> 16 word \<Rightarrow> bool" where
  "below_minimum cfg v = (MinVersion cfg \<noteq> 0 \<and> v < MinVersion cfg)"

datatype 'a startup = Started 'a | LogFatal | NilPanic

text \<open>
  Lines 179 to 208. The parameters are the system's certificate pool
  (\<open>x509.SystemCertPool\<close>), \<open>ioutil.ReadFile\<close> and the certificates
  \<open>AppendCertsFromPEM\<close> finds in a file's text; adding a certificate to a nil pool
  panics.
\<close>

definition transportConfigS3 ::
  "S3Conf \<Rightarrow> string list option \<Rightarrow> (string \<Rightarrow> string \<times> error option) \<Rightarrow> (string \<Rightarrow> string list)
     \<Rightarrow> http_Transport startup" where
  "transportConfigS3 c SystemCertPool ReadFile certsFromPEM =
     (let cfg = \<lparr> MinVersion = 2, RootCAs = None \<rparr>;
          systemCAs = (if SystemCertPool = Some [] then Some [] else SystemCertPool);
          cfg = cfg\<lparr> RootCAs := systemCAs \<rparr>
      in
      if Cacert c \<noteq> [] then
        (case ReadFile (Cacert c) of
           (cacert, Some e) \<Rightarrow> LogFatal
         | (cacert, None) \<Rightarrow>
             (case RootCAs cfg of
                None \<Rightarrow>
                  if certsFromPEM cacert = []
                  then Started \<lparr> TLSClientConfig = cfg, ForceAttemptHTTP2 = True \<rparr>
                  else NilPanic
              | Some pool \<Rightarrow>
                  Started \<lparr> TLSClientConfig = cfg\<lparr> RootCAs := Some (pool @ certsFromPEM cacert) \<rparr>,
                            ForceAttemptHTTP2 = True \<rparr>))
      else Started \<lparr> TLSClientConfig = cfg, ForceAttemptHTTP2 = True \<rparr>)"

section \<open>Example inputs\<close>

definition sync_message :: sync where
  "sync_message =
     \<lparr> sync.Type = ''ingest'', User = ''alice'', Filepath = ''f.txt'',
       AccessionID = ''EGAF001'',
       DecryptedChecksums = [\<lparr> checksums.Type = ''sha256'', Value = ''abc123'' \<rparr>] \<rparr>"

definition sync_env_ok :: sync_env where
  "sync_env_ok =
     \<lparr> sync_env.delivered = \<lparr> CorrelationId = ''c1'', delivery.Body = ''{}'' \<rparr>,
       validation = None,
       decoded = sync_message,
       GetArchived = (\<lambda>u p c. ((''alice/f.txt.c4gh'', 3), None)),
       archive_NewFileReader = (\<lambda>p. (Some (Reader [[1, 2], [3]] None), None)),
       backup_NewFileWriter = (\<lambda>p. (Some (Writer None), None)),
       SendMessage_err = None \<rparr>"

text \<open>The archive file ends after two of the three bytes the database recorded.\<close>

definition sync_env_short :: sync_env where
  "sync_env_short =
     sync_env_ok\<lparr> archive_NewFileReader := (\<lambda>p. (Some (Reader [[1, 2]] None), None)) \<rparr>"

text \<open>The copy succeeds and the publish fails.\<close>

definition sync_env_unpublished :: sync_env where
  "sync_env_unpublished = sync_env_ok\<lparr> sync_env.SendMessage_err := Some ''channel closed'' \<rparr>"

definition sync2_env_ok :: sync2_env where
  "sync2_env_ok =
     \<lparr> sync2_env.delivered = \<lparr> CorrelationId = ''c1'', delivery.Body = ''{}'' \<rparr>,
       decoded = sync_message,
       json_Unmarshal =
         (\<lambda>b. case b of
                Raw text \<Rightarrow>
                  ([''type'', ''user'', ''filepath'', ''accession_id'', ''decrypted_checksums''],
                   None)
              | _ \<Rightarrow> ([''user'', ''filepath'', ''accession_id'', ''decrypted_checksums''], None)),
       gojsonschema_Validate = (\<lambda>sch b. (Some True, None)),
       inbox_NewFileReader = (\<lambda>p. (Some (Reader [[1, 2], [3]] None), None)),
       backup_NewFileWriter = (\<lambda>p. (Some (Writer None), None)),
       MarkReady_err = None,
       SendMessage_err = None \<rparr>"

definition sync2_env_unpublished :: sync2_env where
  "sync2_env_unpublished = sync2_env_ok\<lparr> sync2_env.SendMessage_err := Some ''channel closed'' \<rparr>"

text \<open>The body is JSON that the schema rejects: a result that is not valid, and no error.\<close>

definition sync2_env_invalid :: sync2_env where
  "sync2_env_invalid =
     sync2_env_ok\<lparr> gojsonschema_Validate := (\<lambda>sch b. (Some False, None)) \<rparr>"

definition verify_message :: message where
  "verify_message =
     \<lparr> message.FilePath = ''f.txt'', User = ''alice'', FileID = 7,
       ArchivePath = ''alice/f.txt.c4gh'',
       EncryptedChecksums = [], ReVerify = False \<rparr>"

text \<open>
  A header of two bytes and an archive file of three; the decrypt stage returns the
  plaintext in two chunks of one byte. The digest functions of the examples are the
  identity for SHA-256 and \<open>rev\<close> for MD5.
\<close>

definition verify_env_ok :: verify_env where
  "verify_env_ok =
     \<lparr> verify_env.delivered = \<lparr> CorrelationId = ''c1'', delivery.Body = ''{}'' \<rparr>,
       validation = None,
       decoded = verify_message,
       GetHeader = (\<lambda>i. ([1, 2], None)),
       GetFileSize = (\<lambda>p. (3, None)),
       NewFileReader = (\<lambda>p. (Some [3, 4, 5], None)),
       decryptor = \<lparr> open_reads = [4, 1], open_err = None,
                     plain_reads = [([1], [171]), ([], [205])],
                     last_reads = [8], last_err = None \<rparr>,
       validation_out = (\<lambda>b. None),
       MarkCompleted_err = None,
       SendMessage_err = None \<rparr>"

definition verify_env_unpublished :: verify_env where
  "verify_env_unpublished = verify_env_ok\<lparr> verify_env.SendMessage_err := Some ''channel closed'' \<rparr>"

definition verify_env_db_down :: verify_env where
  "verify_env_db_down = verify_env_ok\<lparr> MarkCompleted_err := Some ''db down'' \<rparr>"

definition verify_env_reverify :: verify_env where
  "verify_env_reverify =
     verify_env_ok\<lparr> verify_env.decoded := verify_message\<lparr> ReVerify := True \<rparr> \<rparr>"

definition s3_conf :: S3Conf where
  "s3_conf =
     \<lparr> URL = ''https://s3.example.org'', Port = 443, AccessKey = ''access'',
       SecretKey = ''secret'', S3Conf.Bucket = ''archive'', Region = ''us-east-1'',
       UploadConcurrency = 2, Chunksize = 5242880, Cacert = [] \<rparr>"

text \<open>The object is missing: the client returns an output without a body, and an error.\<close>

definition GetObject_missing :: "string \<Rightarrow> string \<Rightarrow> GetObjectOutput option \<times> error option" where
  "GetObject_missing bucket k = (Some \<lparr> GetObjectOutput.Body = None \<rparr>, Some ''NoSuchKey'')"

section \<open>Counting the calls of a trace\<close>

lemma resolutions_simps [simp]:
  "resolutions [] = 0"
  "resolutions (Ack # tr) = Suc (resolutions tr)"
  "resolutions (Nack b # tr) = Suc (resolutions tr)"
  "resolutions (SendMessage r bd # tr) = resolutions tr"
  "resolutions (SendJSONError s # tr) = resolutions tr"
  "resolutions (MarkReady a u p c # tr) = resolutions tr"
  "resolutions (MarkCompleted f i # tr) = resolutions tr"
  "resolutions (Written p bs # tr) = resolutions tr"
  by (cases b; simp add: resolutions_def acks_def nacks_def)+

section \<open>\<open>io.Copy\<close> counts what it wrote\<close>

lemma Write_count:
  "Write p w = (nw, ew, w') \<Longrightarrow> nw \<le> length p \<and> (ew = None \<longrightarrow> nw = length p)"
  by (cases "(p, w)" rule: Write.cases) (auto split: if_splits)

lemma copy_loop_count:
  "copy_loop w ps er n out = (n', e', out') \<Longrightarrow> n' + length out = n + length out'"
proof (induction ps arbitrary: w n out)
  case Nil
  then show ?case by simp
next
  case (Cons p ps)
  obtain nw ew w' where W: "Write p w = (nw, ew, w')" by (cases "Write p w") auto
  have le: "nw \<le> length p" using Write_count [OF W] by simp
  show ?case
  proof (cases ew)
    case None
    with Cons.prems W have "copy_loop w' ps er (n + nw) (out @ take nw p) = (n', e', out')"
      by simp
    from Cons.IH [OF this] le show ?thesis by simp
  next
    case (Some a)
    with Cons.prems W le show ?thesis by auto
  qed
qed

lemma io_Copy_count:
  "io_Copy dest file = Some (n, err, out) \<Longrightarrow> n = length out"
  by (cases "(dest, file)" rule: io_Copy.cases) (auto dest: copy_loop_count)

section \<open>The worker loops\<close>

lemma sync_main_once: "resolutions (fst (sync_main e)) \<le> 1"
  by (simp add: sync_main_def mq_ValidateJSON_def Let_def split: option.splits prod.splits)

lemma validation_block_once:
  "validation_block r = (ev, out) \<Longrightarrow> resolutions ev \<le> 1 \<and> (out = None \<longrightarrow> ev = [])"
  by (auto simp: validation_block_def error_Error_def split: option.splits prod.splits if_splits)

lemma sync2_main_once: "resolutions (fst (sync2_main e)) \<le> 1"
proof -
  obtain ev out where A: "validation_block (validateJSON e (Raw (delivery.Body (sync2_env.delivered e)))) = (ev, out)"
    by (cases "validation_block (validateJSON e (Raw (delivery.Body (sync2_env.delivered e))))") auto
  show ?thesis
  proof (cases out)
    case (Some a)
    with A validation_block_once [OF A] show ?thesis by (simp add: sync2_main_def)
  next
    case None
    with validation_block_once [OF A] have ev: "ev = []" by simp
    obtain ev2 out2 where B: "validation_block (validateJSON e (JSON_completed
        \<lparr> completed.User = sync.User (sync2_env.decoded e),
          Filepath = sync.Filepath (sync2_env.decoded e),
          AccessionID = sync.AccessionID (sync2_env.decoded e),
          DecryptedChecksums = sync.DecryptedChecksums (sync2_env.decoded e) \<rparr>)) = (ev2, out2)"
      by (cases "validation_block (validateJSON e (JSON_completed
        \<lparr> completed.User = sync.User (sync2_env.decoded e),
          Filepath = sync.Filepath (sync2_env.decoded e),
          AccessionID = sync.AccessionID (sync2_env.decoded e),
          DecryptedChecksums = sync.DecryptedChecksums (sync2_env.decoded e) \<rparr>))") auto
    from validation_block_once [OF B] A B None ev show ?thesis
      by (simp add: sync2_main_def Let_def split: option.splits prod.splits)
  qed
qed

lemma verify_main_once: "resolutions (fst (verify_main S M e)) \<le> 1"
  by (auto simp: verify_main_def verify_compute_def verify_report_def mq_ValidateJSON_def Let_def
      split: option.splits prod.splits sum.splits verification.splits)


section \<open>The verification reads the archive once\<close>

lemma mr_Reads_append:
  "mr_Reads (ns1 @ ns2) mr =
     (case mr_Reads ns1 mr of
        None \<Rightarrow> None
      | Some (p1, mr1) \<Rightarrow>
          (case mr_Reads ns2 mr1 of
             None \<Rightarrow> None
           | Some (p2, mr2) \<Rightarrow> Some (p1 @ p2, mr2)))"
  by (induction ns1 arbitrary: mr) (auto split: option.splits)

lemma mr_Reads_hash:
  "mr_Reads ns (hr, Some f, h) = Some (ps, (hr', f', h')) \<Longrightarrow>
   h' = h @ read_from_archive ns hr f"
proof (induction ns arbitrary: hr f h ps)
  case Nil
  then show ?case by simp
next
  case (Cons n ns)
  show ?case
  proof (cases "hr \<noteq> []")
    case True
    with Cons.prems obtain qs where
      "mr_Reads ns (drop n hr, Some f, h) = Some (qs, (hr', f', h'))"
      by (auto split: option.splits)
    from Cons.IH [OF this] True show ?thesis by simp
  next
    case False
    with Cons.prems obtain qs where
      "mr_Reads ns (hr, Some (drop n f), h @ take n f) = Some (qs, (hr', f', h'))"
      by (auto split: option.splits)
    from Cons.IH [OF this] False show ?thesis by simp
  qed
qed

lemma read_from_archive_prefix: "prefix (read_from_archive ns hr f) f"
proof (induction ns arbitrary: hr f)
  case Nil
  then show ?case by simp
next
  case (Cons n ns)
  show ?case
  proof (cases "hr = []")
    case True
    have "prefix (take n f @ read_from_archive ns hr (drop n f)) (take n f @ drop n f)"
      using Cons.IH [of hr "drop n f"] by (simp only: same_prefix_prefix)
    then show ?thesis using True by simp
  next
    case False
    then show ?thesis using Cons.IH [of "drop n hr" f] by simp
  qed
qed

lemma copy_stream_eq:
  "copy_stream st lreads lerr mr md5hash sha256hash n =
     (case mr_Reads (concat (map fst st) @ lreads) mr of
        None \<Rightarrow> None
      | Some (ps, mr') \<Rightarrow>
          Some (n + length (concat (map snd st)), lerr, mr',
                md5hash @ concat (map snd st), sha256hash @ concat (map snd st)))"
proof (induction st arbitrary: mr md5hash sha256hash n)
  case Nil
  then show ?case by (simp split: option.splits)
next
  case (Cons a st)
  obtain rs p where a: "a = (rs, p)" by (cases a)
  show ?case
    by (simp add: a Cons.IH mr_Reads_append [of rs] split: option.splits)
qed

lemma verification_Verified:
  assumes "verification d header (Some body) = Verified n archiveFileHash sha256hash md5hash"
  shows "n = length (plaintext d) \<and> sha256hash = plaintext d \<and> md5hash = plaintext d
       \<and> archiveFileHash = read_from_archive (all_reads d) header body"
proof (cases "mr_Reads (open_reads d) (header, Some body, [])")
  case None
  with assms show ?thesis by (simp add: verification_def)
next
  case (Some r1)
  obtain ps1 mr1 where r1: "r1 = (ps1, mr1)" by (cases r1)
  note o = Some [unfolded r1]
  show ?thesis
  proof (cases "open_err d")
    case (Some err)
    with assms o show ?thesis by (simp add: verification_def)
  next
    case None
    note oe = None
    show ?thesis
    proof (cases "mr_Reads (concat (map fst (plain_reads d)) @ last_reads d) mr1")
      case None
      with assms o oe show ?thesis by (simp add: verification_def copy_stream_eq)
    next
      case (Some r2)
      obtain ps2 hr f' a where r2: "r2 = (ps2, (hr, f', a))" by (cases r2) auto
      note c = Some [unfolded r2]
      from assms o oe c have
        r: "n = length (plaintext d)" "sha256hash = plaintext d" "md5hash = plaintext d"
           "archiveFileHash = a"
        by (auto simp: verification_def copy_stream_eq plaintext_def split: option.splits)
      have "mr_Reads (all_reads d) (header, Some body, []) = Some (ps1 @ ps2, (hr, f', a))"
        unfolding all_reads_def by (simp add: mr_Reads_append [of "open_reads d"] o c)
      from mr_Reads_hash [OF this] r show ?thesis by simp
    qed
  qed
qed


section \<open>Cleaned paths\<close>

lemma elements_not_Nil: "elements p \<noteq> []"
  by (induction p) (auto split: list.splits)

lemma elements_no_sep: "e \<in> set (elements p) \<Longrightarrow> CHR ''/'' \<notin> set e"
  by (induction p arbitrary: e) (auto split: list.splits if_splits)

lemma elements_append_sep: "elements (a @ CHR ''/'' # b) = elements a @ elements b"
proof (induction a)
  case Nil
  then show ?case by simp
next
  case (Cons c a)
  then show ?case
    using elements_not_Nil [of a] by (cases "elements a") auto
qed

lemma elements_single: "CHR ''/'' \<notin> set e \<Longrightarrow> elements e = [e]"
  by (induction e) auto

lemma elements_Join:
  "out \<noteq> [] \<Longrightarrow> \<forall>e \<in> set out. CHR ''/'' \<notin> set e \<Longrightarrow> elements (strings_Join out ''/'') = out"
proof (induction out "''/''" rule: strings_Join.induct)
  case 1
  then show ?case by simp
next
  case (2 e)
  then show ?case by (simp add: elements_single)
next
  case (3 e v va)
  then show ?case by (simp add: elements_append_sep elements_single)
qed

lemma Clean_render:
  "Clean p = render (rooted p) (foldl (clean_elem (rooted p)) [] (elements p))"
  by (simp add: Clean_def render_def rooted_def clean_elem_def Let_def)

lemma good_Nil: "good rt []"
  unfolding good_def by (rule exI [of _ 0]) simp

lemma good_step:
  assumes "good rt out" and "CHR ''/'' \<notin> set e"
  shows "good rt (clean_elem rt out e)"
proof -
  from assms(1) obtain k ys where
    out: "out = replicate k ''..'' @ ys" and k: "rt \<longrightarrow> k = 0" and ys: "list_all real_elem ys"
    unfolding good_def by blast
  consider (skip) "e = [] \<or> e = ''.''" | (up) "e = ''..''" | (name) "real_elem e"
    using assms(2) by (auto simp: real_elem_def)
  then show ?thesis
  proof cases
    case skip
    then show ?thesis using assms(1) by (auto simp: clean_elem_def)
  next
    case name
    then have "clean_elem rt out e = replicate k ''..'' @ (ys @ [e])"
      by (auto simp: clean_elem_def real_elem_def out)
    moreover have "list_all real_elem (ys @ [e])" using ys name by simp
    ultimately show ?thesis unfolding good_def using k by blast
  next
    case up
    show ?thesis
    proof (cases "ys = []")
      case False
      then have l: "last out = last ys" "out \<noteq> []" by (simp_all add: out)
      have "last ys \<in> set ys" using False by simp
      then have "real_elem (last ys)" using ys by (simp add: list_all_iff)
      then have "last out \<noteq> ''..''" using l by (auto simp: real_elem_def)
      then have "clean_elem rt out e = replicate k ''..'' @ butlast ys"
        using up l False by (simp add: clean_elem_def out butlast_append)
      moreover have "list_all real_elem (butlast ys)"
        using ys by (auto simp: list_all_iff dest: in_set_butlastD)
      ultimately show ?thesis unfolding good_def using k by blast
    next
      case True
      then have o: "out = replicate k ''..''" by (simp add: out)
      have nb: "out = [] \<or> last out = ''..''" by (cases "k = 0") (simp_all add: o)
      show ?thesis
      proof (cases rt)
        case True
        then show ?thesis using up nb assms(1) by (auto simp: clean_elem_def)
      next
        case False
        then have "clean_elem rt out e = replicate (Suc k) ''..'' @ []"
          using up nb o by (auto simp: clean_elem_def replicate_append_same)
        then have "clean_elem rt out e = replicate (Suc k) ''..'' @ [] \<and> (rt \<longrightarrow> Suc k = 0)
            \<and> list_all real_elem []"
          using False by simp
        then show ?thesis unfolding good_def by blast
      qed
    qed
  qed
qed

lemma good_foldl:
  "good rt out \<Longrightarrow> \<forall>e \<in> set es. CHR ''/'' \<notin> set e \<Longrightarrow> good rt (foldl (clean_elem rt) out es)"
  by (induction es arbitrary: out) (auto intro: good_step)

lemma good_Clean: "good (rooted p) (foldl (clean_elem (rooted p)) [] (elements p))"
  by (rule good_foldl [OF good_Nil]) (auto dest: elements_no_sep)

lemma foldl_real: "list_all real_elem ys \<Longrightarrow> foldl (clean_elem rt) acc ys = acc @ ys"
  by (induction ys arbitrary: acc) (auto simp: clean_elem_def real_elem_def)

lemma foldl_dotdots:
  "\<not> rt \<Longrightarrow> foldl (clean_elem rt) (replicate j ''..'') (replicate k ''..'') = replicate (j + k) ''..''"
proof (induction k arbitrary: j)
  case 0
  then show ?case by simp
next
  case (Suc k)
  have "replicate j ''..'' = [] \<or> last (replicate j ''..'') = ''..''"
    by (cases "j = 0") simp_all
  then have "clean_elem rt (replicate j ''..'') ''..'' = replicate (Suc j) ''..''"
    using Suc.prems by (auto simp: clean_elem_def replicate_append_same)
  then show ?case using Suc.IH [OF Suc.prems, of "Suc j"] by simp
qed

lemma foldl_good: "good rt out \<Longrightarrow> foldl (clean_elem rt) [] out = out"
proof -
  assume "good rt out"
  then obtain k ys where
    out: "out = replicate k ''..'' @ ys" and k: "rt \<longrightarrow> k = 0" and ys: "list_all real_elem ys"
    unfolding good_def by blast
  have "foldl (clean_elem rt) [] (replicate k ''..'') = replicate k ''..''"
  proof (cases rt)
    case True
    then show ?thesis using k by simp
  next
    case False
    from foldl_dotdots [OF this, of 0 k] show ?thesis by simp
  qed
  then show ?thesis by (simp add: out foldl_real [OF ys])
qed

lemma good_elems:
  assumes "good rt out" and "e \<in> set out"
  shows "e \<noteq> [] \<and> e \<noteq> ''.'' \<and> CHR ''/'' \<notin> set e"
proof -
  from assms(1) obtain k ys where
    out: "out = replicate k ''..'' @ ys" and ys: "list_all real_elem ys"
    unfolding good_def by blast
  from assms(2) have "e = ''..'' \<or> e \<in> set ys" by (auto simp: out)
  then show ?thesis
  proof
    assume "e = ''..''"
    then show ?thesis by simp
  next
    assume "e \<in> set ys"
    with ys have "real_elem e" by (simp add: list_all_iff)
    then show ?thesis unfolding real_elem_def by blast
  qed
qed

lemma clean_elem_skip: "clean_elem rt out [] = out" "clean_elem rt out ''.'' = out"
  by (simp_all add: clean_elem_def)

lemma elements_render:
  assumes "good rt out"
  shows "filter (\<lambda>e. e \<noteq> [] \<and> e \<noteq> ''.'') (elements (render rt out)) = out
       \<and> foldl (clean_elem rt) [] (elements (render rt out)) = out"
proof (cases "out = []")
  case True
  then show ?thesis by (cases rt) (simp_all add: render_def clean_elem_skip)
next
  case False
  have ns: "\<forall>e \<in> set out. CHR ''/'' \<notin> set e" using good_elems [OF assms] by blast
  have el: "elements (strings_Join out ''/'') = out" by (rule elements_Join [OF False ns])
  have f: "filter (\<lambda>e. e \<noteq> [] \<and> e \<noteq> ''.'') out = out"
    using good_elems [OF assms] by (simp add: filter_id_conv)
  show ?thesis
    using False el f foldl_good [OF assms] by (cases rt) (simp_all add: render_def clean_elem_skip)
qed

lemma strings_Join_hd: "e \<noteq> [] \<Longrightarrow> strings_Join (e # es) sep \<noteq> [] \<and> hd (strings_Join (e # es) sep) = hd e"
  by (cases es) simp_all

lemma rooted_render:
  assumes "good rt out"
  shows "render rt out \<noteq> [] \<and> rooted (render rt out) = rt"
proof (cases "rt \<or> out = []")
  case True
  then show ?thesis by (auto simp: render_def rooted_def)
next
  case False
  then obtain e es where out: "out = e # es" by (cases out) auto
  have e: "e \<noteq> [] \<and> CHR ''/'' \<notin> set e" using good_elems [OF assms, of e] by (simp add: out)
  then have "hd e \<noteq> CHR ''/''" by (cases e) auto
  then show ?thesis
    using False e strings_Join_hd [of e es "''/''"] by (simp add: render_def rooted_def out)
qed

lemma foldl_no_dotdot:
  "''..'' \<notin> set es \<Longrightarrow>
   foldl (clean_elem rt) acc es = acc @ filter (\<lambda>e. e \<noteq> [] \<and> e \<noteq> ''.'') es"
  by (induction es arbitrary: acc) (auto simp: clean_elem_def)

lemma Join_confined:
  assumes "''..'' \<notin> set (elements filePath)"
  shows "confined (Clean location) (Join [Clean location, filePath])"
proof -
  define rt where "rt = rooted location"
  define out where "out = foldl (clean_elem rt) [] (elements location)"
  define zs where "zs = filter (\<lambda>e. e \<noteq> [] \<and> e \<noteq> ''.'') (elements filePath)"
  have g: "good rt out" unfolding out_def rt_def by (rule good_Clean)
  have R: "Clean location = render rt out" by (simp add: Clean_render rt_def out_def)
  have Rne: "render rt out \<noteq> []" and Rrt: "rooted (render rt out) = rt"
    using rooted_render [OF g] by simp_all
  have rtJ: "rooted (render rt out @ CHR ''/'' # filePath) = rt"
    using Rne Rrt by (simp add: rooted_def)
  have "foldl (clean_elem rt) [] (elements (render rt out @ CHR ''/'' # filePath))
        = foldl (clean_elem rt) out (elements filePath)"
    using elements_render [OF g] by (simp add: elements_append_sep)
  also have "\<dots> = out @ zs" unfolding zs_def by (rule foldl_no_dotdot [OF assms])
  finally have outJ: "foldl (clean_elem rt) [] (elements (render rt out @ CHR ''/'' # filePath)) = out @ zs" .
  have "Join [Clean location, filePath] = Clean (render rt out @ CHR ''/'' # filePath)"
    using Rne by (simp add: R)
  also have "\<dots> = render rt (out @ zs)"
    by (simp only: Clean_render [of "render rt out @ CHR ''/'' # filePath"] rtJ outJ)
  finally have J: "Join [Clean location, filePath] = render rt (out @ zs)" .
  have g2: "good rt (out @ zs)"
    using good_foldl [OF g, of "elements filePath"] elements_no_sep [of _ filePath]
      foldl_no_dotdot [OF assms, of rt out] by (simp add: zs_def)
  have pe: "path_elems (render rt out) = out" "path_elems (render rt (out @ zs)) = out @ zs"
    using elements_render [OF g] elements_render [OF g2] by (simp_all add: path_elems_def)
  have nz: "''..'' \<notin> set zs" using assms by (simp add: zs_def)
  have "confined (render rt out) (render rt (out @ zs))"
    using rooted_render [OF g] rooted_render [OF g2] nz by (simp add: confined_def pe)
  then show ?thesis unfolding J unfolding R .
qed

section \<open>The claims\<close>

text \<open>
  Claim C1 (the code breaks it): if publishing the outbound message fails, the worker does
  not acknowledge the delivery in that iteration. The first sync worker restarts its loop
  without \<open>Ack\<close>. The second sync worker (lines 505 to 512) and the verify worker (lines
  741 to 751) only log the error of \<open>SendMessage\<close> and go on to \<open>Ack\<close>: on the two
  inputs below, where everything succeeds and \<open>SendMessage\<close> fails, the last call of the
  iteration is \<open>Ack\<close>.
\<close>

theorem publish_failure_still_acked:
  "sync2_env.SendMessage_err sync2_env_unpublished = Some ''channel closed''
   \<and> sync2_main sync2_env_unpublished =
       ([Written ''f.txt'' [1, 2, 3],
         MarkReady ''EGAF001'' ''alice'' ''f.txt'' ''abc123'',
         SendMessage RoutingKey
           (JSON_completed
              \<lparr> completed.User = ''alice'', Filepath = ''f.txt'', AccessionID = ''EGAF001'',
                DecryptedChecksums = [\<lparr> checksums.Type = ''sha256'', Value = ''abc123'' \<rparr>] \<rparr>),
         Ack], NextDelivery)
   \<and> verify_env.SendMessage_err verify_env_unpublished = Some ''channel closed''
   \<and> verify_main (\<lambda>bs. bs) rev verify_env_unpublished =
       ([MarkCompleted
           \<lparr> Checksum = [3, 4, 5], Size = 3, DecryptedChecksum = [171, 205],
             DecryptedSize = 2 \<rparr> 7,
         SendMessage RoutingKey
           (JSON_verified
              \<lparr> verified.User = ''alice'', FilePath = ''f.txt'',
                DecryptedChecksums =
                  [\<lparr> checksums.Type = ''sha256'', Value = ''abcd'' \<rparr>,
                   \<lparr> checksums.Type = ''md5'', Value = ''cdab'' \<rparr>] \<rparr>),
         Ack], NextDelivery)"
  by (simp add: sync2_main_def sync2_env_unpublished_def sync2_env_ok_def sync_message_def
      validateJSON_def validation_block_def checksumSha256_def verify_main_def verify_compute_def
      verify_report_def verify_env_unpublished_def verify_env_ok_def verify_message_def
      mq_ValidateJSON_def verification_def hexdigit_def)

text \<open>
  Claim C2 (the code breaks it): a delivery whose body fails the schema validation is
  negative-acknowledged without requeue, gets exactly one publish to the error channel,
  and the loop goes on. The second sync worker does so when \<open>validateJSON\<close> returns an
  error (lines 393 to 406). When the body is JSON that the schema rejects, the result is
  not valid and \<open>err\<close> is nil; the branch at lines 407 to 421 calls \<open>Nack(false, false)\<close>
  and then evaluates \<open>err.Error()\<close> on the nil error: the worker panics with no publish
  to the error channel.
\<close>

theorem schema_invalid_panics:
  "validateJSON sync2_env_invalid (Raw (delivery.Body (sync2_env.delivered sync2_env_invalid)))
     = (Some False, None)
   \<and> sync2_main sync2_env_invalid = ([Nack False], Panic)
   \<and> error_publishes (fst (sync2_main sync2_env_invalid)) = 0"
  by (simp add: sync2_main_def sync2_env_invalid_def sync2_env_ok_def validateJSON_def
      validation_block_def error_Error_def error_publishes_def)

text \<open>
  Claim C3 (corrected): every delivery is resolved by exactly one \<open>Ack\<close> or \<open>Nack\<close>
  before the loop goes on. As amended: an iteration of each of the three loops makes at
  most one \<open>Ack\<close> or \<open>Nack\<close> call, so no delivery is resolved twice; an iteration can end
  with no such call, as the first sync worker does by design when the publish fails
  (lines 265 to 282: ``Restart loop, do not ack'').
\<close>

theorem at_most_one_resolution:
  "resolutions (fst (sync_main e1)) \<le> 1
   \<and> resolutions (fst (sync2_main e2)) \<le> 1
   \<and> resolutions (fst (verify_main sha256_Sum md5_Sum e3)) \<le> 1"
  using sync_main_once [of e1] sync2_main_once [of e2]
    verify_main_once [of sha256_Sum md5_Sum e3]
  by blast

theorem at_most_one_resolution_witness:
  "resolutions (fst (sync_main sync_env_ok)) \<le> 1
   \<and> resolutions (fst (sync2_main sync2_env_ok)) \<le> 1
   \<and> resolutions (fst (verify_main (\<lambda>bs. bs) rev verify_env_ok)) \<le> 1
   \<and> Ack \<in> set (fst (sync_main sync_env_ok))"
  using at_most_one_resolution [of sync_env_ok sync2_env_ok "\<lambda>bs. bs" rev verify_env_ok]
  by (simp add: sync_main_def sync_env_ok_def sync_message_def mq_ValidateJSON_def)

theorem unresolved_delivery_counterexample:
  "sync_main sync_env_unpublished =
     ([Written ''alice/f.txt.c4gh'' [1, 2, 3], SendMessage RoutingKey (Raw ''{}'')],
      NextDelivery)
   \<and> resolutions (fst (sync_main sync_env_unpublished)) = 0"
  by (simp add: sync_main_def sync_env_unpublished_def sync_env_ok_def sync_message_def
      mq_ValidateJSON_def)

text \<open>
  Claim C4: when the verify worker processes a message to the end (it reaches \<open>Ack\<close>) on
  an archive stream \<open>body\<close>, the file it records with \<open>MarkCompleted\<close> has as decrypted
  size the number of plaintext bytes the decrypt stage produced, as decrypted checksum
  the hash of exactly those bytes, and as checksum the hash of the bytes read from the
  archive stream (the header's bytes are not among them); the message it publishes gives
  the SHA-256 and the MD5 digest of the same plaintext in hexadecimal. The three hashes
  are fed by the one pass of \<open>copy_stream\<close>.
\<close>

theorem verify_checksums:
  assumes ack: "Ack \<in> set (fst (verify_main sha256_Sum md5_Sum e))"
      and body: "fst (NewFileReader e (ArchivePath (verify_env.decoded e))) = Some body"
  shows "fst (verify_main sha256_Sum md5_Sum e) =
     [MarkCompleted
        \<lparr> Checksum = read_from_archive (all_reads (decryptor e))
                       (fst (GetHeader e (FileID (verify_env.decoded e)))) body,
          Size = fst (GetFileSize e (ArchivePath (verify_env.decoded e))),
          DecryptedChecksum = plaintext (decryptor e),
          DecryptedSize = int (length (plaintext (decryptor e))) \<rparr>
        (FileID (verify_env.decoded e)),
      SendMessage RoutingKey
        (JSON_verified
           \<lparr> verified.User = message.User (verify_env.decoded e),
             FilePath = message.FilePath (verify_env.decoded e),
             DecryptedChecksums =
               [\<lparr> checksums.Type = ''sha256'',
                  Value = hex (sha256_Sum (plaintext (decryptor e))) \<rparr>,
                \<lparr> checksums.Type = ''md5'',
                  Value = hex (md5_Sum (plaintext (decryptor e))) \<rparr>] \<rparr>),
      Ack]"
proof -
  from ack obtain fi md5hash where
    comp: "verify_compute e = Inr (fi, md5hash)"
    by (auto simp: verify_main_def verify_compute_def mq_ValidateJSON_def Let_def
        split: sum.splits option.splits prod.splits verification.splits)
  from comp body obtain n a s where
    v: "verification (decryptor e) (fst (GetHeader e (FileID (verify_env.decoded e)))) (Some body)
          = Verified n a s md5hash"
    and fl: "fi = \<lparr> Checksum = a, Size = fst (GetFileSize e (ArchivePath (verify_env.decoded e))),
                        DecryptedChecksum = s, DecryptedSize = int n \<rparr>"
    by (auto simp: verify_compute_def mq_ValidateJSON_def Let_def
        split: option.splits prod.splits verification.splits)
  from ack comp have rep: "Ack \<in> set (fst (verify_report sha256_Sum md5_Sum e fi md5hash))"
    by (simp add: verify_main_def)
  from rep have "fst (verify_report sha256_Sum md5_Sum e fi md5hash) =
     [MarkCompleted fi (FileID (verify_env.decoded e)),
      SendMessage RoutingKey
        (JSON_verified
           \<lparr> verified.User = message.User (verify_env.decoded e),
             FilePath = message.FilePath (verify_env.decoded e),
             DecryptedChecksums =
               [\<lparr> checksums.Type = ''sha256'',
                  Value = hex (sha256_Sum (DecryptedChecksum fi)) \<rparr>,
                \<lparr> checksums.Type = ''md5'', Value = hex (md5_Sum md5hash) \<rparr>] \<rparr>),
      Ack]"
    by (auto simp: verify_report_def mq_ValidateJSON_def Let_def
        split: option.splits prod.splits if_splits)
  with verification_Verified [OF v] comp fl show ?thesis
    by (simp add: verify_main_def)
qed

theorem verify_checksums_witness:
  "Ack \<in> set (fst (verify_main (\<lambda>bs. bs) rev verify_env_ok))
   \<and> fst (NewFileReader verify_env_ok (ArchivePath (verify_env.decoded verify_env_ok)))
       = Some [3, 4, 5]
   \<and> plaintext (decryptor verify_env_ok) = [171, 205]
   \<and> fst (verify_main (\<lambda>bs. bs) rev verify_env_ok) =
       [MarkCompleted
          \<lparr> Checksum = [3, 4, 5], Size = 3, DecryptedChecksum = [171, 205],
            DecryptedSize = 2 \<rparr> 7,
        SendMessage RoutingKey
          (JSON_verified
             \<lparr> verified.User = ''alice'', FilePath = ''f.txt'',
               DecryptedChecksums =
                 [\<lparr> checksums.Type = ''sha256'', Value = ''abcd'' \<rparr>,
                  \<lparr> checksums.Type = ''md5'', Value = ''cdab'' \<rparr>] \<rparr>),
        Ack]"
proof -
  have run: "verify_main (\<lambda>bs. bs) rev verify_env_ok =
       ([MarkCompleted
          \<lparr> Checksum = [3, 4, 5], Size = 3, DecryptedChecksum = [171, 205],
            DecryptedSize = 2 \<rparr> 7,
        SendMessage RoutingKey
          (JSON_verified
             \<lparr> verified.User = ''alice'', FilePath = ''f.txt'',
               DecryptedChecksums =
                 [\<lparr> checksums.Type = ''sha256'', Value = ''abcd'' \<rparr>,
                  \<lparr> checksums.Type = ''md5'', Value = ''cdab'' \<rparr>] \<rparr>),
        Ack], NextDelivery)"
    by (simp add: verify_main_def verify_compute_def verify_report_def verify_env_ok_def
        verify_message_def mq_ValidateJSON_def verification_def hexdigit_def)
  have ack: "Ack \<in> set (fst (verify_main (\<lambda>bs. bs) rev verify_env_ok))"
    by (simp add: run)
  have body: "fst (NewFileReader verify_env_ok (ArchivePath (verify_env.decoded verify_env_ok)))
       = Some [3, 4, 5]"
    by (simp add: verify_env_ok_def)
  have pt: "plaintext (decryptor verify_env_ok) = [171, 205]"
    by (simp add: plaintext_def verify_env_ok_def)
  from verify_checksums [OF ack body] ack body pt run show ?thesis by simp
qed

text \<open>
  Claim C5: for a copy-work message whose archived size the database knows
  (\<open>GetArchived\<close> returned \<open>filePath\<close> and \<open>fileSize\<close>), a run of the first sync worker
  that reaches \<open>Ack\<close> has written a destination object of \<open>fileSize\<close> bytes; and whenever
  the bytes written differ in number from \<open>fileSize\<close>, the worker calls
  \<open>Nack(false, true)\<close> and does not call \<open>Ack\<close>. (The second sync worker looks up no size.)
\<close>

theorem sync_copy_size:
  assumes "GetArchived e (sync.User (sync_env.decoded e)) (sync.Filepath (sync_env.decoded e))
             (checksumSha256 (sync.DecryptedChecksums (sync_env.decoded e)))
           = ((filePath, fileSize), None)"
  shows "(Ack \<in> set (fst (sync_main e)) \<longrightarrow>
            (\<exists>bs. Written filePath bs \<in> set (fst (sync_main e)) \<and> int (length bs) = fileSize))
       \<and> (\<forall>bs. Written filePath bs \<in> set (fst (sync_main e)) \<and> int (length bs) \<noteq> fileSize \<longrightarrow>
            Nack True \<in> set (fst (sync_main e)) \<and> Ack \<notin> set (fst (sync_main e)))"
  using assms
  by (auto simp: sync_main_def mq_ValidateJSON_def Let_def
      split: option.splits prod.splits if_splits dest: io_Copy_count)

theorem sync_copy_size_witness:
  "GetArchived sync_env_ok ''alice'' ''f.txt'' ''abc123'' = ((''alice/f.txt.c4gh'', 3), None)
   \<and> sync_main sync_env_ok =
       ([Written ''alice/f.txt.c4gh'' [1, 2, 3], SendMessage RoutingKey (Raw ''{}''), Ack],
        NextDelivery)
   \<and> GetArchived sync_env_short ''alice'' ''f.txt'' ''abc123'' = ((''alice/f.txt.c4gh'', 3), None)
   \<and> sync_main sync_env_short =
       ([Written ''alice/f.txt.c4gh'' [1, 2], Nack True], NextDelivery)"
proof -
  have a: "GetArchived sync_env_ok (sync.User (sync_env.decoded sync_env_ok))
             (sync.Filepath (sync_env.decoded sync_env_ok))
             (checksumSha256 (sync.DecryptedChecksums (sync_env.decoded sync_env_ok)))
           = ((''alice/f.txt.c4gh'', 3), None)"
    by (simp add: sync_env_ok_def)
  have b: "GetArchived sync_env_short (sync.User (sync_env.decoded sync_env_short))
             (sync.Filepath (sync_env.decoded sync_env_short))
             (checksumSha256 (sync.DecryptedChecksums (sync_env.decoded sync_env_short)))
           = ((''alice/f.txt.c4gh'', 3), None)"
    by (simp add: sync_env_short_def sync_env_ok_def)
  from sync_copy_size [OF a] sync_copy_size [OF b] show ?thesis
    by (simp add: sync_main_def sync_env_short_def sync_env_ok_def sync_message_def
        mq_ValidateJSON_def)
qed

text \<open>
  Claim C6 (the code breaks it): when the persist step fails, the worker calls
  \<open>Nack(false, true)\<close>, does not call \<open>Ack\<close> and publishes nothing. The second sync worker
  does so when \<open>MarkReady\<close> fails (lines 494 to 503). The verify worker, when
  \<open>MarkCompleted\<close> fails (lines 731 to 736), logs the error and goes on to the next
  delivery with no \<open>Nack\<close>: on the input below the only call of the iteration is
  \<open>MarkCompleted\<close>.
\<close>

theorem persist_failure_not_nacked:
  "MarkCompleted_err verify_env_db_down = Some ''db down''
   \<and> verify_main (\<lambda>bs. bs) rev verify_env_db_down =
       ([MarkCompleted
           \<lparr> Checksum = [3, 4, 5], Size = 3, DecryptedChecksum = [171, 205],
             DecryptedSize = 2 \<rparr> 7], NextDelivery)
   \<and> nacks (fst (verify_main (\<lambda>bs. bs) rev verify_env_db_down)) = 0
   \<and> acks (fst (verify_main (\<lambda>bs. bs) rev verify_env_db_down)) = 0
   \<and> publishes (fst (verify_main (\<lambda>bs. bs) rev verify_env_db_down)) = 0"
  by (simp add: verify_main_def verify_compute_def verify_report_def verify_env_db_down_def
      verify_env_ok_def verify_message_def mq_ValidateJSON_def verification_def nacks_def
      acks_def publishes_def)

text \<open>
  Claim C7 (corrected): for every caller-provided path, also one with \<open>..\<close> elements, the
  paths that \<open>GetFileSize\<close>, \<open>NewFileReader\<close> and \<open>NewFileWriter\<close> of the POSIX backend
  resolve stay under the configured root. As amended: for every caller-provided path
  with no \<open>..\<close> element, the path each of the three methods passes to the operating
  system is confined under the cleaned root directory; the methods join and clean and
  check nothing, so a path with \<open>..\<close> elements can resolve outside the root.
\<close>

theorem posix_paths_confined:
  assumes "''..'' \<notin> set (elements filePath)"
  shows "confined (Clean (Location pb))
           (syscall_path (fst (PosixBackend_GetFileSize pb os_stat filePath)))
       \<and> confined (Clean (Location pb))
           (syscall_path (fst (PosixBackend_NewFileReader pb os_open filePath)))
       \<and> confined (Clean (Location pb))
           (syscall_path (fst (PosixBackend_NewFileWriter pb os_openfile filePath)))"
proof -
  have s: "syscall_path (fst (PosixBackend_GetFileSize pb os_stat filePath))
             = Join [Clean (Location pb), filePath]"
    by (simp add: PosixBackend_GetFileSize_def Let_def split: prod.splits option.splits
        del: Join.simps)
  have r: "syscall_path (fst (PosixBackend_NewFileReader pb os_open filePath))
             = Join [Clean (Location pb), filePath]"
    by (simp add: PosixBackend_NewFileReader_def Let_def split: prod.splits option.splits
        del: Join.simps)
  have w: "syscall_path (fst (PosixBackend_NewFileWriter pb os_openfile filePath))
             = Join [Clean (Location pb), filePath]"
    by (simp add: PosixBackend_NewFileWriter_def Let_def split: prod.splits option.splits
        del: Join.simps)
  show ?thesis
    unfolding s r w using Join_confined [OF assms, of "Location pb"] by blast
qed

theorem posix_paths_confined_witness:
  "''..'' \<notin> set (elements ''alice/f.txt'')
   \<and> syscall_path (fst (PosixBackend_GetFileSize \<lparr> Location = ''/data/'' \<rparr>
        (\<lambda>name. (3, None)) ''alice/f.txt'')) = ''/data/alice/f.txt''
   \<and> confined (Clean (Location \<lparr> Location = ''/data/'' \<rparr>))
        (syscall_path (fst (PosixBackend_GetFileSize \<lparr> Location = ''/data/'' \<rparr>
           (\<lambda>name. (3, None)) ''alice/f.txt'')))"
proof -
  have a: "''..'' \<notin> set (elements ''alice/f.txt'')" by code_simp
  have b: "syscall_path (fst (PosixBackend_GetFileSize \<lparr> Location = ''/data/'' \<rparr>
        (\<lambda>name. (3, None)) ''alice/f.txt'')) = ''/data/alice/f.txt''"
    by code_simp
  note c = posix_paths_confined [OF a, THEN conjunct1,
      of "\<lparr> Location = ''/data/'' \<rparr>" "\<lambda>name. (3, None)"]
  show ?thesis by (intro conjI a b c)
qed

theorem posix_path_escapes_counterexample:
  "syscall_path (fst (PosixBackend_NewFileReader \<lparr> Location = ''/data'' \<rparr>
      (\<lambda>name. (Some (Reader [] None), None)) ''../etc/passwd'')) = ''/etc/passwd''
   \<and> Clean ''/data'' = ''/data''
   \<and> \<not> confined ''/data'' ''/etc/passwd''"
  by code_simp

text \<open>
  Claim C8 (the code breaks it): the transport's TLS configuration has TLS 1.2 as its
  minimum version. Under the comment ``Enforce TLS1.2 or higher'' the function sets
  \<open>cfg.MinVersion = 2\<close> (line 183); the version number of TLS 1.2 is \<open>0x0303\<close>. So
  whenever the function returns a transport, its minimum version is \<open>2\<close>, which is not
  the version of TLS 1.2 and is below the versions of TLS 1.0 and TLS 1.1: the
  configured minimum excludes neither.
\<close>

theorem transport_min_version:
  assumes "transportConfigS3 c SystemCertPool ReadFile certsFromPEM = Started t"
  shows "MinVersion (TLSClientConfig t) = 2
       \<and> MinVersion (TLSClientConfig t) \<noteq> VersionTLS12
       \<and> \<not> below_minimum (TLSClientConfig t) VersionTLS10
       \<and> \<not> below_minimum (TLSClientConfig t) VersionTLS11"
proof -
  from assms have m: "MinVersion (TLSClientConfig t) = 2"
    by (auto simp: transportConfigS3_def Let_def split: if_splits prod.splits option.splits)
  show ?thesis
    by (simp add: m below_minimum_def VersionTLS10_def VersionTLS11_def VersionTLS12_def)
qed

theorem transport_min_version_witness:
  "transportConfigS3 s3_conf (Some []) (\<lambda>name. ([], Some ''unread'')) (\<lambda>pem. []) =
     Started \<lparr> TLSClientConfig = \<lparr> MinVersion = 2, RootCAs = Some [] \<rparr>,
               ForceAttemptHTTP2 = True \<rparr>
   \<and> MinVersion \<lparr> MinVersion = 2, RootCAs = Some [] \<rparr> \<noteq> VersionTLS12
   \<and> \<not> below_minimum \<lparr> MinVersion = 2, RootCAs = Some [] \<rparr> VersionTLS10"
proof -
  have a: "transportConfigS3 s3_conf (Some []) (\<lambda>name. ([], Some ''unread'')) (\<lambda>pem. []) =
     Started \<lparr> TLSClientConfig = \<lparr> MinVersion = 2, RootCAs = Some [] \<rparr>,
               ForceAttemptHTTP2 = True \<rparr>"
    by (simp add: transportConfigS3_def s3_conf_def)
  from transport_min_version [OF a] a show ?thesis by simp
qed

text \<open>
  Claim C9 (the code breaks it): \<open>NewFileReader\<close> returns a usable stream and a nil
  error, or a non-nil error; a failure of the underlying call is propagated. The POSIX
  backend returns the error of \<open>os.Open\<close>. The S3 backend (lines 134 to 145) only logs
  the error of \<open>GetObject\<close> and returns \<open>r.Body, nil\<close>: whatever \<open>GetObject\<close> answers,
  the error it returns is nil; for a missing object the stream is nil as well.
\<close>

theorem s3_reader_drops_error:
  assumes "S3Backend_NewFileReader sb GetObject filePath = Some (stream, err)"
  shows "err = None"
  using assms
  by (auto simp: S3Backend_NewFileReader_def split: prod.splits option.splits)

theorem s3_reader_drops_error_witness:
  "snd (GetObject_missing ''archive'' ''alice/missing.c4gh'') = Some ''NoSuchKey''
   \<and> S3Backend_NewFileReader \<lparr> S3Backend.Bucket = ''archive'' \<rparr> GetObject_missing
        ''alice/missing.c4gh'' = Some (None, None)"
proof -
  have a: "S3Backend_NewFileReader \<lparr> S3Backend.Bucket = ''archive'' \<rparr> GetObject_missing
        ''alice/missing.c4gh'' = Some (None, None)"
    by (simp add: S3Backend_NewFileReader_def GetObject_missing_def)
  from s3_reader_drops_error [OF a] a show ?thesis by (simp add: GetObject_missing_def)
qed

text \<open>
  Claim C10: for a verify-work message whose \<open>re_verify\<close> flag is true, once the worker
  has computed the checksums and the decrypted size (\<open>verify_compute\<close> returns them), the
  iteration makes no call at all: no \<open>MarkCompleted\<close>, no publish, no \<open>Ack\<close> and no
  \<open>Nack\<close>. And however the iteration of such a message ends, it calls neither \<open>Ack\<close>
  nor \<open>MarkCompleted\<close>, nor publishes to the routing key of verified files.
\<close>

theorem verify_reverify_silent:
  assumes "ReVerify (verify_env.decoded e)"
  shows "(\<forall>file md5hash. verify_compute e = Inr (file, md5hash) \<longrightarrow>
            verify_main sha256_Sum md5_Sum e = ([], NextDelivery))
       \<and> Ack \<notin> set (fst (verify_main sha256_Sum md5_Sum e))
       \<and> (\<forall>file i. MarkCompleted file i \<notin> set (fst (verify_main sha256_Sum md5_Sum e)))
       \<and> (\<forall>b. SendMessage RoutingKey b \<notin> set (fst (verify_main sha256_Sum md5_Sum e)))"
  using assms
  by (auto simp: verify_main_def verify_compute_def verify_report_def mq_ValidateJSON_def Let_def
      split: sum.splits option.splits prod.splits verification.splits)

theorem verify_reverify_silent_witness:
  "ReVerify (verify_env.decoded verify_env_reverify)
   \<and> verify_compute verify_env_reverify =
       Inr (\<lparr> Checksum = [3, 4, 5], Size = 3, DecryptedChecksum = [171, 205],
              DecryptedSize = 2 \<rparr>, [171, 205])
   \<and> verify_main (\<lambda>bs. bs) rev verify_env_reverify = ([], NextDelivery)"
proof -
  have r: "ReVerify (verify_env.decoded verify_env_reverify)"
    by (simp add: verify_env_reverify_def)
  have c: "verify_compute verify_env_reverify =
       Inr (\<lparr> Checksum = [3, 4, 5], Size = 3, DecryptedChecksum = [171, 205],
              DecryptedSize = 2 \<rparr>, [171, 205])"
    by (simp add: verify_compute_def verify_env_reverify_def verify_env_ok_def
        verify_message_def mq_ValidateJSON_def verification_def)
  from verify_reverify_silent [OF r, of "\<lambda>bs. bs" rev] r c show ?thesis by simp
qed

end
